theory Spec2Isabelle
  imports Main "HOL-Library.Sublist"
begin

section \<open>Data model\<close>

text \<open>
  The snapshot types of the extension (\<^verbatim>\<open>types.ts\<close>). Numbers that hold
  \<^verbatim>\<open>Date.now()\<close> values, tab ids and counters are integers. A field that
  JavaScript may leave \<^verbatim>\<open>undefined\<close> is an \<open>option\<close>; the screenshot
  field, which the code compares with \<^verbatim>\<open>null\<close> by \<^verbatim>\<open>===\<close>, keeps
  \<^verbatim>\<open>undefined\<close>, \<^verbatim>\<open>null\<close> and a string apart.
\<close>

datatype PageType =
  GoogleSheets | GoogleDocs | GoogleSlides | GoogleForms | Gmail | Article | Search | General | Unknown

datatype js_screenshot = Undefined | Null | Filename string

record PageData =
  screenshot :: js_screenshot
  payload :: "(string \<times> string) list"

record PageSnapshot =
  ps_url :: string
  ps_title :: string
  ps_timestamp :: int
  ps_type :: PageType
  ps_data :: "PageData option"

record TabSnapshot =
  tabId :: int
  isActive :: bool
  snapshot :: PageSnapshot

record WindowSnapshot =
  windowId :: int
  activeTabId :: int
  tabs :: "TabSnapshot list"

record WorkspaceCapture =
  timestamp :: int
  windows :: "WindowSnapshot list"

datatype CaptureReason = Idle | Manual

record FailedSubmission =
  fs_id :: string
  fs_workspace :: WorkspaceCapture
  fs_userId :: string
  fs_captureReason :: CaptureReason
  fs_timestamp :: int
  retryCount :: int

record AIInsight =
  insight_id :: string
  insight_user_id :: string
  insight_timestamp :: int
  insight_title :: string
  insight_description :: string

section \<open>The fixed keys of chrome.storage.local\<close>

text \<open>
  The keys the service reads and writes by name. \<open>None\<close> is a key that was never
  written (\<^verbatim>\<open>undefined\<close> in the object \<^verbatim>\<open>get\<close> returns).
\<close>

record local_storage =
  last_aws_submission :: "int option"
  aws_requests_minute :: "int option"
  aws_requests_hour :: "int option"
  aws_minute_start :: "int option"
  aws_hour_start :: "int option"
  failed_submissions :: "FailedSubmission list option"
  cached_insights :: "AIInsight list option"
  insights_cached_at :: "int option"

definition empty_storage :: local_storage where
  "empty_storage =
     \<lparr>last_aws_submission = None, aws_requests_minute = None, aws_requests_hour = None,
      aws_minute_start = None, aws_hour_start = None, failed_submissions = None,
      cached_insights = None, insights_cached_at = None\<rparr>"

text \<open>
  \<^verbatim>\<open>x || d\<close> on a stored number: \<^verbatim>\<open>undefined\<close> and \<^verbatim>\<open>0\<close> are
  both falsy and give the default.
\<close>

definition num_or :: "int option \<Rightarrow> int \<Rightarrow> int" where
  "num_or x d = (case x of None \<Rightarrow> d | Some n \<Rightarrow> if n = 0 then d else n)"

section \<open>Rate limiting (awsService.ts)\<close>

definition MAX_REQUESTS_PER_MINUTE :: int where
  "MAX_REQUESTS_PER_MINUTE = 5"

definition MAX_REQUESTS_PER_HOUR :: int where
  "MAX_REQUESTS_PER_HOUR = 20"

definition MIN_INTERVAL_MS :: int where
  "MIN_INTERVAL_MS = 12000"

text \<open>
  \<^verbatim>\<open>shouldSubmitContext\<close>. The first argument is \<^verbatim>\<open>Date.now()\<close>, the second
  what \<^verbatim>\<open>chrome.storage.local.get\<close> gave: \<open>None\<close> when the read threw, which the
  \<^verbatim>\<open>catch\<close> turns into \<^verbatim>\<open>false\<close>.
\<close>

definition shouldSubmitContext :: "int \<Rightarrow> local_storage option \<Rightarrow> bool" where
  "shouldSubmitContext now got =
     (case got of
        None \<Rightarrow> False
      | Some data \<Rightarrow>
          (let lastSubmission = num_or (last_aws_submission data) 0;
               minuteStart = num_or (aws_minute_start data) now;
               hourStart = num_or (aws_hour_start data) now
           in if now - lastSubmission < MIN_INTERVAL_MS then False
              else
                (let requestsThisMinute =
                       (if now - minuteStart \<ge> 60000 then 0
                        else num_or (aws_requests_minute data) 0);
                     requestsThisHour =
                       (if now - hourStart \<ge> 3600000 then 0
                        else num_or (aws_requests_hour data) 0)
                 in if requestsThisMinute \<ge> MAX_REQUESTS_PER_MINUTE then False
                    else if requestsThisHour \<ge> MAX_REQUESTS_PER_HOUR then False
                    else True)))"

text \<open>
  \<^verbatim>\<open>updateRateLimitCounters\<close>. The flag says whether the storage calls went
  through; when one throws, the \<^verbatim>\<open>catch\<close> logs it and nothing is written.
\<close>

definition updateRateLimitCounters :: "int \<Rightarrow> bool \<Rightarrow> local_storage \<Rightarrow> local_storage" where
  "updateRateLimitCounters now storage_ok data =
     (if \<not> storage_ok then data
      else
        (let minuteStart = num_or (aws_minute_start data) now;
             hourStart = num_or (aws_hour_start data) now;
             requestsThisMinute =
               (if now - minuteStart \<ge> 60000 then 0 else num_or (aws_requests_minute data) 0);
             requestsThisHour =
               (if now - hourStart \<ge> 3600000 then 0 else num_or (aws_requests_hour data) 0)
         in data\<lparr>aws_requests_minute := Some (requestsThisMinute + 1),
                 aws_requests_hour := Some (requestsThisHour + 1),
                 aws_minute_start := Some (if now - minuteStart \<ge> 60000 then now else minuteStart),
                 aws_hour_start := Some (if now - hourStart \<ge> 3600000 then now else hourStart),
                 last_aws_submission := Some now\<rparr>))"

subsection \<open>Sequences of admission checks and counter updates\<close>


















section \<open>Workspace capture (background.ts)\<close>

text \<open>
  What \<^verbatim>\<open>chrome.windows.getAll({populate: true})\<close> returns, as far as the capture
  reads it. \<^verbatim>\<open>tab.id\<close> and \<^verbatim>\<open>tab.url\<close> are optional; a window whose
  \<^verbatim>\<open>tabs\<close> is \<^verbatim>\<open>undefined\<close> is a window with the empty list, which the loop
  skips all the same.
\<close>

record ChromeTab =
  tab_id :: "int option"
  tab_url :: "string option"
  tab_active :: bool

record ChromeWindow =
  win_id :: int
  win_tabs :: "ChromeTab list"

text \<open>
  The browser calls of one capture cycle and what they gave: the per-tab extraction
  (\<^verbatim>\<open>chrome.scripting.executeScript\<close>) throws, returns no result, or returns a page
  snapshot; \<^verbatim>\<open>chrome.tabs.captureVisibleTab\<close> throws or returns an image string;
  a storage write goes through or throws.
\<close>

datatype script_outcome = ScriptThrew | ScriptNoResult | ScriptResult PageSnapshot

datatype shot_outcome = ShotThrew | ShotReturned string

record capture_env =
  windows_getAll :: "ChromeWindow list option"
  executeScript :: "ChromeTab \<Rightarrow> script_outcome"
  captureVisibleTab :: "int \<Rightarrow> shot_outcome"
  image_set_ok :: "string \<Rightarrow> bool"
  workspace_set_ok :: bool

text \<open>
  The calls of a capture that the properties below count: each call of
  \<^verbatim>\<open>captureVisibleTab\<close> (by window id) and each write to
  \<^verbatim>\<open>chrome.storage.local\<close> that went through.
\<close>

datatype effect =
  CalledCaptureVisibleTab int
| StoredImage string string
| StoredWorkspace string WorkspaceCapture

text \<open>A number in a template literal: decimal digits, with a minus sign when negative.\<close>

definition digit_char :: "nat \<Rightarrow> char" where
  "digit_char d = ''0123456789'' ! d"

function show_nat :: "nat \<Rightarrow> string" where
  "show_nat n = (if n < 10 then [digit_char n] else show_nat (n div 10) @ [digit_char (n mod 10)])"
  by pat_completeness auto
termination
  by (relation "measure (\<lambda>n. n)") auto

declare show_nat.simps [simp del]

definition show_int :: "int \<Rightarrow> string" where
  "show_int i = (if i < 0 then CHR ''-'' # show_nat (nat (- i)) else show_nat (nat i))"

text \<open>
  The loop over a window's tabs. A tab is skipped when
  \<^verbatim>\<open>!tab.id || !tab.url?.startsWith("http")\<close>; the id \<open>0\<close> is falsy.
\<close>

definition tab_eligible :: "ChromeTab \<Rightarrow> bool" where
  "tab_eligible tab =
     (\<not> ((case tab_id tab of None \<Rightarrow> True | Some i \<Rightarrow> i = 0) \<or>
          \<not> (case tab_url tab of None \<Rightarrow> False | Some u \<Rightarrow> prefix ''http'' u)))"

definition capture_tab :: "capture_env \<Rightarrow> WindowSnapshot \<Rightarrow> ChromeTab \<Rightarrow> WindowSnapshot" where
  "capture_tab env windowSnapshot tab =
     (if \<not> tab_eligible tab then windowSnapshot
      else
        (case tab_id tab of
           None \<Rightarrow> windowSnapshot
         | Some i \<Rightarrow>
             (case executeScript env tab of
                ScriptThrew \<Rightarrow> windowSnapshot
              | ScriptNoResult \<Rightarrow> windowSnapshot
              | ScriptResult result \<Rightarrow>
                  (let marked =
                         (if tab_active tab then windowSnapshot\<lparr>activeTabId := i\<rparr>
                          else windowSnapshot)
                   in marked\<lparr>tabs := tabs marked @
                        [\<lparr>tabId = i, isActive = tab_active tab, snapshot = result\<rparr>]\<rparr>))))"

text \<open>
  \<^verbatim>\<open>activeTab.snapshot.data.screenshot = filename\<close>, where \<^verbatim>\<open>activeTab\<close> is
  the first captured tab with \<^verbatim>\<open>isActive\<close>: the object is updated in place.
\<close>

fun set_active_screenshot :: "string \<Rightarrow> TabSnapshot list \<Rightarrow> TabSnapshot list" where
  "set_active_screenshot filename [] = []"
| "set_active_screenshot filename (tab # rest) =
     (if isActive tab
      then tab\<lparr>snapshot := (snapshot tab)
             \<lparr>ps_data := map_option (\<lambda>d. d\<lparr>screenshot := Filename filename\<rparr>)
                          (ps_data (snapshot tab))\<rparr>\<rparr> # rest
      else tab # set_active_screenshot filename rest)"

text \<open>
  \<^verbatim>\<open>activeTab?.snapshot.data?.screenshot === null\<close>: there is a captured active tab,
  it has structured data, and the screenshot field is \<^verbatim>\<open>null\<close>.
\<close>

definition needs_screenshot :: "TabSnapshot option \<Rightarrow> bool" where
  "needs_screenshot activeTab =
     (case activeTab of
        None \<Rightarrow> False
      | Some tab \<Rightarrow>
          (case ps_data (snapshot tab) of None \<Rightarrow> False | Some d \<Rightarrow> screenshot d = Null))"

text \<open>
  One pass of the loop over the windows, for a window that has tabs: the tabs in order,
  then the screenshot block. It returns the calls made and the window snapshot.
\<close>

definition capture_window ::
  "capture_env \<Rightarrow> int \<Rightarrow> ChromeWindow \<Rightarrow> effect list \<times> WindowSnapshot" where
  "capture_window env ts window =
     (let windowSnapshot =
            foldl (capture_tab env) \<lparr>windowId = win_id window, activeTabId = - 1, tabs = []\<rparr>
              (win_tabs window);
          activeTab = find isActive (tabs windowSnapshot)
      in if needs_screenshot activeTab
         then
           (case activeTab of
              None \<Rightarrow> ([], windowSnapshot)
            | Some tab \<Rightarrow>
                (case captureVisibleTab env (win_id window) of
                   ShotThrew \<Rightarrow> ([CalledCaptureVisibleTab (win_id window)], windowSnapshot)
                 | ShotReturned img \<Rightarrow>
                     (if img = [] then ([CalledCaptureVisibleTab (win_id window)], windowSnapshot)
                      else
                        (let filename = ''img_'' @ show_int ts @ ''_'' @ show_int (tabId tab)
                         in if \<not> image_set_ok env filename
                            then ([CalledCaptureVisibleTab (win_id window)], windowSnapshot)
                            else ([CalledCaptureVisibleTab (win_id window), StoredImage filename img],
                                  windowSnapshot\<lparr>tabs :=
                                    set_active_screenshot filename (tabs windowSnapshot)\<rparr>)))))
         else ([], windowSnapshot))"

fun capture_windows ::
  "capture_env \<Rightarrow> int \<Rightarrow> ChromeWindow list \<Rightarrow> effect list \<times> WindowSnapshot list" where
  "capture_windows env ts [] = ([], [])"
| "capture_windows env ts (window # rest) =
     (if win_tabs window = [] then capture_windows env ts rest
      else
        (let (effs, windowSnapshot) = capture_window env ts window;
             (effs', snapshots) = capture_windows env ts rest
         in (effs @ effs',
             if tabs windowSnapshot \<noteq> [] then windowSnapshot # snapshots else snapshots)))"

text \<open>
  \<^verbatim>\<open>captureWorkspace\<close> up to the point where the snapshot is persisted; \<open>ts\<close> is the
  \<^verbatim>\<open>Date.now()\<close> taken for \<^verbatim>\<open>workspace.timestamp\<close>. The only calls outside an
  inner \<^verbatim>\<open>try\<close> are \<^verbatim>\<open>chrome.windows.getAll\<close> and the write of the
  snapshot: when one throws, the outer \<^verbatim>\<open>catch\<close> throws the error on (\<open>Inl\<close>).
  The submission that follows runs inside its own \<^verbatim>\<open>try\<close> and is modelled
  by \<open>submitContext\<close>.
\<close>

datatype capture_error = CaptureError

definition captureWorkspace ::
  "capture_env \<Rightarrow> int \<Rightarrow> effect list \<times> (capture_error + WorkspaceCapture)" where
  "captureWorkspace env ts =
     (case windows_getAll env of
        None \<Rightarrow> ([], Inl CaptureError)
      | Some wins \<Rightarrow>
          (let (effs, snapshots) = capture_windows env ts wins;
               workspace = \<lparr>timestamp = ts, windows = snapshots\<rparr>;
               workspaceKey = ''workspace_'' @ show_int ts
           in if \<not> workspace_set_ok env then (effs, Inl CaptureError)
              else (effs @ [StoredWorkspace workspaceKey workspace], Inr workspace)))"

text \<open>
  The numbers \<open>N\<close> and \<open>K\<close> of the specification: the eligible tabs of a window, and
  those of them whose
  extraction fails (throws, or returns no result).
\<close>

definition script_failed :: "capture_env \<Rightarrow> ChromeTab \<Rightarrow> bool" where
  "script_failed env tab =
     (case executeScript env tab of ScriptResult r \<Rightarrow> False | _ \<Rightarrow> True)"

definition eligible_count :: "ChromeWindow \<Rightarrow> nat" where
  "eligible_count window = length (filter tab_eligible (win_tabs window))"

definition failed_count :: "capture_env \<Rightarrow> ChromeWindow \<Rightarrow> nat" where
  "failed_count env window =
     length (filter (\<lambda>tab. tab_eligible tab \<and> script_failed env tab) (win_tabs window))"

definition stored_images :: "effect list \<Rightarrow> (string \<times> string) list" where
  "stored_images effs =
     concat (map (\<lambda>e. case e of StoredImage k v \<Rightarrow> [(k, v)] | _ \<Rightarrow> []) effs)"

definition screenshot_calls :: "effect list \<Rightarrow> int list" where
  "screenshot_calls effs =
     concat (map (\<lambda>e. case e of CalledCaptureVisibleTab w \<Rightarrow> [w] | _ \<Rightarrow> []) effs)"

text \<open>
  The screenshot a window gets, read off the browser's answers: the snapshot the tab loop
  appends for a tab, if any; the first captured tab of a window that is active; and the
  blob (key and image) stored for the window, which needs that tab to carry structured
  data with a \<^verbatim>\<open>null\<close> screenshot field, \<^verbatim>\<open>captureVisibleTab\<close> to return a
  non-empty image, and the store to take the write.
\<close>

definition tab_snapshot :: "capture_env \<Rightarrow> ChromeTab \<Rightarrow> TabSnapshot option" where
  "tab_snapshot env tab =
     (if tab_eligible tab
      then (case tab_id tab of
              None \<Rightarrow> None
            | Some i \<Rightarrow>
                (case executeScript env tab of
                   ScriptResult result \<Rightarrow> Some \<lparr>tabId = i, isActive = tab_active tab, snapshot = result\<rparr>
                 | _ \<Rightarrow> None))
      else None)"

definition screenshot_tab :: "capture_env \<Rightarrow> ChromeWindow \<Rightarrow> TabSnapshot option" where
  "screenshot_tab env window = find isActive (List.map_filter (tab_snapshot env) (win_tabs window))"

definition window_blob :: "capture_env \<Rightarrow> int \<Rightarrow> ChromeWindow \<Rightarrow> (string \<times> string) option" where
  "window_blob env ts window =
     (case screenshot_tab env window of
        None \<Rightarrow> None
      | Some tab \<Rightarrow>
          (case ps_data (snapshot tab) of
             None \<Rightarrow> None
           | Some d \<Rightarrow>
               (case captureVisibleTab env (win_id window) of
                  ShotThrew \<Rightarrow> None
                | ShotReturned img \<Rightarrow>
                    if screenshot d = Null \<and> img \<noteq> [] \<and>
                       image_set_ok env (''img_'' @ show_int ts @ ''_'' @ show_int (tabId tab))
                    then Some (''img_'' @ show_int ts @ ''_'' @ show_int (tabId tab), img)
                    else None)))"

text \<open>
  A capture of two windows, each with one active Google Docs tab whose extraction
  succeeds and whose screenshot is taken and stored; the scenario of the specification,
  two windows of which the first has three tabs and the extraction of the second tab
  fails; and a window whose active tab is a browser page that the loop skips.
\<close>

definition docs_page :: PageSnapshot where
  "docs_page =
     \<lparr>ps_url = ''https://docs.google.com/document/d/1'', ps_title = ''Notes - Google Docs'',
      ps_timestamp = 1000, ps_type = GoogleDocs,
      ps_data = Some \<lparr>screenshot = Null, payload = [(''documentName'', ''Notes'')]\<rparr>\<rparr>"

definition two_docs_windows :: capture_env where
  "two_docs_windows =
     \<lparr>windows_getAll = Some
        [\<lparr>win_id = 1, win_tabs =
            [\<lparr>tab_id = Some 11, tab_url = Some ''https://docs.google.com/document/d/1'',
              tab_active = True\<rparr>]\<rparr>,
         \<lparr>win_id = 2, win_tabs =
            [\<lparr>tab_id = Some 22, tab_url = Some ''https://docs.google.com/document/d/2'',
              tab_active = True\<rparr>]\<rparr>],
      executeScript = (\<lambda>tab. ScriptResult docs_page),
      captureVisibleTab = (\<lambda>w. ShotReturned ''jpeg''),
      image_set_ok = (\<lambda>k. True),
      workspace_set_ok = True\<rparr>"

definition plain_page :: PageSnapshot where
  "plain_page =
     \<lparr>ps_url = ''https://example.org/'', ps_title = ''Example'', ps_timestamp = 1000,
      ps_type = General, ps_data = None\<rparr>"

definition three_tabs_env :: capture_env where
  "three_tabs_env =
     \<lparr>windows_getAll = Some
        [\<lparr>win_id = 1, win_tabs =
            [\<lparr>tab_id = Some 1, tab_url = Some ''https://example.org/a'', tab_active = True\<rparr>,
             \<lparr>tab_id = Some 2, tab_url = Some ''https://example.org/b'', tab_active = False\<rparr>,
             \<lparr>tab_id = Some 3, tab_url = Some ''https://example.org/c'', tab_active = False\<rparr>]\<rparr>,
         \<lparr>win_id = 2, win_tabs =
            [\<lparr>tab_id = Some 4, tab_url = Some ''http://example.org/d'', tab_active = True\<rparr>]\<rparr>],
      executeScript = (\<lambda>tab. if tab_id tab = Some 2 then ScriptThrew else ScriptResult plain_page),
      captureVisibleTab = (\<lambda>w. ShotThrew),
      image_set_ok = (\<lambda>k. True),
      workspace_set_ok = True\<rparr>"

definition settings_window :: ChromeWindow where
  "settings_window =
     \<lparr>win_id = 3, win_tabs =
        [\<lparr>tab_id = Some 5, tab_url = Some ''chrome://settings'', tab_active = True\<rparr>,
         \<lparr>tab_id = Some 6, tab_url = Some ''https://example.org/'', tab_active = False\<rparr>]\<rparr>"

section \<open>Submission and the retry queue (awsService.ts)\<close>

text \<open>
  What one call of \<^verbatim>\<open>submitContext\<close> meets: the clock readings, the random
  suffixes of the generated identifiers, how the POST ended, and whether each group of
  storage calls went through. A POST either fails in the network (\<^verbatim>\<open>fetch\<close>
  throws) or yields a response with a status; \<^verbatim>\<open>response.ok\<close> is a status from
  200 to 299, and the flag says whether the body of such a response parses as JSON.
\<close>

datatype post_outcome = NetworkError | Response nat bool

record submit_env =
  check_now :: int
  rate_get_ok :: bool
  submit_now :: int
  correlation_suffix :: string
  post :: post_outcome
  update_now :: int
  update_ok :: bool
  failed_now :: int
  failed_suffix :: string
  failed_ok :: bool

definition response_ok :: "nat \<Rightarrow> bool" where
  "response_ok status = (200 \<le> status \<and> status \<le> 299)"

text \<open>The POST ended in a network error or a status outside 200..299.\<close>

definition post_failed :: "post_outcome \<Rightarrow> bool" where
  "post_failed p = (case p of NetworkError \<Rightarrow> True | Response status body \<Rightarrow> \<not> response_ok status)"

text \<open>
  \<^verbatim>\<open>new Date(ts).toISOString()\<close> throws a RangeError outside the range of dates,
  8.64e15 milliseconds either side of the epoch.
\<close>

definition valid_date :: "int \<Rightarrow> bool" where
  "valid_date ts = (\<bar>ts\<bar> \<le> 8640000000000000)"

text \<open>\<^verbatim>\<open>data.failed_submissions || []\<close>: an array is truthy, also when empty.\<close>

definition queue :: "local_storage \<Rightarrow> FailedSubmission list" where
  "queue data = (case failed_submissions data of None \<Rightarrow> [] | Some q \<Rightarrow> q)"

text \<open>\<^verbatim>\<open>xs.slice(-n)\<close>: the last \<open>n\<close> elements, or all when there are fewer.\<close>

definition slice_last :: "nat \<Rightarrow> 'a list \<Rightarrow> 'a list" where
  "slice_last n xs = drop (length xs - n) xs"

definition new_failed ::
  "submit_env \<Rightarrow> WorkspaceCapture \<Rightarrow> string \<Rightarrow> CaptureReason \<Rightarrow> FailedSubmission" where
  "new_failed env workspace userId captureReason =
     \<lparr>fs_id = ''failed_'' @ show_int (failed_now env) @ ''_'' @ failed_suffix env,
      fs_workspace = workspace, fs_userId = userId, fs_captureReason = captureReason,
      fs_timestamp = failed_now env, retryCount = 0\<rparr>"

text \<open>
  \<^verbatim>\<open>storeFailedSubmission\<close>. When a storage call throws, the \<^verbatim>\<open>catch\<close> logs it
  and the queue stays as it was.
\<close>

definition storeFailedSubmission ::
  "submit_env \<Rightarrow> WorkspaceCapture \<Rightarrow> string \<Rightarrow> CaptureReason \<Rightarrow> local_storage \<Rightarrow> local_storage" where
  "storeFailedSubmission env workspace userId captureReason data =
     (if \<not> failed_ok env then data
      else
        (let failedSubmissions = queue data @ [new_failed env workspace userId captureReason];
             recentFailed = slice_last 10 failedSubmissions
         in data\<lparr>failed_submissions := Some recentFailed\<rparr>))"

text \<open>
  \<^verbatim>\<open>submitContext\<close>: the correlation id or \<^verbatim>\<open>null\<close>, and the store it leaves.
  Everything after the rate limit check runs inside one \<^verbatim>\<open>try\<close>; its
  \<^verbatim>\<open>catch\<close> stores the failed submission and returns \<^verbatim>\<open>null\<close>, and
  \<^verbatim>\<open>storeFailedSubmission\<close> catches its own errors, so the promise never rejects
  and the result type has no error. The request body is not modelled beyond the date
  conversion that can throw.
\<close>

definition submitContext ::
  "submit_env \<Rightarrow> WorkspaceCapture \<Rightarrow> string \<Rightarrow> CaptureReason \<Rightarrow> local_storage \<Rightarrow>
   string option \<times> local_storage" where
  "submitContext env workspace userId captureReason data =
     (if \<not> shouldSubmitContext (check_now env) (if rate_get_ok env then Some data else None)
      then (None, data)
      else
        (let correlationId = ''c-'' @ show_int (submit_now env) @ ''-'' @ correlation_suffix env;
             failed = (None, storeFailedSubmission env workspace userId captureReason data)
         in if \<not> valid_date (timestamp workspace) then failed
            else
              (case post env of
                 NetworkError \<Rightarrow> failed
               | Response status body_ok \<Rightarrow>
                   if \<not> response_ok status then failed
                   else if \<not> body_ok then failed
                   else (Some correlationId,
                         updateRateLimitCounters (update_now env) (update_ok env) data))))"

text \<open>The POST is made when the rate limiter admits and the request body can be built.\<close>

definition post_made :: "submit_env \<Rightarrow> WorkspaceCapture \<Rightarrow> local_storage \<Rightarrow> bool" where
  "post_made env workspace data =
     (shouldSubmitContext (check_now env) (if rate_get_ok env then Some data else None) \<and>
      valid_date (timestamp workspace))"

text \<open>
  \<^verbatim>\<open>retryFailedSubmissions\<close>. The \<open>i\<close>-th resubmission meets \<open>submit_envs i\<close>.
  The loop returns the arguments of each \<^verbatim>\<open>submitContext\<close> call it makes, what
  each call returned, the ids pushed to \<^verbatim>\<open>successfulRetries\<close>
  (\<^verbatim>\<open>if (contextId)\<close>: neither \<^verbatim>\<open>null\<close> nor the empty string) and the store
  the calls leave. \<^verbatim>\<open>submitContext\<close> never throws, so the \<^verbatim>\<open>catch\<close> inside
  the loop has nothing to catch.
\<close>

record retry_env =
  retry_get_ok :: bool
  submit_envs :: "nat \<Rightarrow> submit_env"
  retry_set_ok :: bool

type_synonym resubmission = "WorkspaceCapture \<times> string \<times> CaptureReason"

fun retry_loop ::
  "(nat \<Rightarrow> submit_env) \<Rightarrow> nat \<Rightarrow> FailedSubmission list \<Rightarrow> local_storage \<Rightarrow>
   resubmission list \<times> string option list \<times> string list \<times> local_storage" where
  "retry_loop envs i [] data = ([], [], [], data)"
| "retry_loop envs i (submission # rest) data =
     (let workspace = fs_workspace submission;
          userId = fs_userId submission;
          captureReason = fs_captureReason submission;
          (contextId, data') = submitContext (envs i) workspace userId captureReason data;
          (calls, results, successfulRetries, data'') = retry_loop envs (Suc i) rest data'
      in ((workspace, userId, captureReason) # calls,
          contextId # results,
          (if contextId \<noteq> None \<and> contextId \<noteq> Some [] then fs_id submission # successfulRetries
           else successfulRetries),
          data''))"

definition retryFailedSubmissions :: "retry_env \<Rightarrow> local_storage \<Rightarrow> local_storage" where
  "retryFailedSubmissions env data =
     (if \<not> retry_get_ok env then data
      else
        (let failedSubmissions = queue data
         in if length failedSubmissions = 0 then data
            else
              (let (calls, results, successfulRetries, data') =
                     retry_loop (submit_envs env) 0 failedSubmissions data;
                   remainingFailed =
                     filter (\<lambda>submission. fs_id submission \<notin> set successfulRetries) failedSubmissions
               in if \<not> retry_set_ok env then data'
                  else data'\<lparr>failed_submissions := Some remainingFailed\<rparr>)))"

text \<open>
  The calls a drain makes and what they return, entry by entry; the entries whose
  resubmission returned a correlation id, and those whose resubmission returned
  \<^verbatim>\<open>null\<close>.
\<close>

definition drain_calls :: "retry_env \<Rightarrow> local_storage \<Rightarrow> resubmission list" where
  "drain_calls env data = fst (retry_loop (submit_envs env) 0 (queue data) data)"

definition drain_results :: "retry_env \<Rightarrow> local_storage \<Rightarrow> string option list" where
  "drain_results env data = fst (snd (retry_loop (submit_envs env) 0 (queue data) data))"

definition resubmitted :: "retry_env \<Rightarrow> local_storage \<Rightarrow> FailedSubmission list" where
  "resubmitted env data =
     map fst (filter (\<lambda>(entry, result). result \<noteq> None) (zip (queue data) (drain_results env data)))"

definition not_resubmitted :: "retry_env \<Rightarrow> local_storage \<Rightarrow> FailedSubmission list" where
  "not_resubmitted env data =
     map fst (filter (\<lambda>(entry, result). result = None) (zip (queue data) (drain_results env data)))"

text \<open>
  Submitting a list of snapshots, each with its user id and reason, one after the other
  as the specification words the drain: the \<open>i\<close>-th call meets \<open>envs i\<close> and the store
  the calls before it left.
\<close>

fun submit_each ::
  "(nat \<Rightarrow> submit_env) \<Rightarrow> nat \<Rightarrow> resubmission list \<Rightarrow> local_storage \<Rightarrow>
   string option list \<times> local_storage" where
  "submit_each envs i [] data = ([], data)"
| "submit_each envs i ((workspace, userId, reason) # rest) data =
     (let (correlation, data') = submitContext (envs i) workspace userId reason data;
          (correlations, data'') = submit_each envs (Suc i) rest data'
      in (correlation # correlations, data''))"

section \<open>Insights and their cache (awsService.ts)\<close>

text \<open>
  \<^verbatim>\<open>getInsights\<close>. The live fetch fails (the request throws, the status is not ok,
  or the response cannot be processed) or yields the insights. The fallback reads the
  cache outside any \<^verbatim>\<open>try\<close>: when that read throws, the call rejects (\<open>Inl\<close>).
\<close>

datatype fetch_outcome = FetchFailed | FetchOk "AIInsight list"

datatype storage_error = StorageError

record insights_env =
  live :: fetch_outcome
  cache_now :: int
  cache_set_ok :: bool
  cache_get_ok :: bool
  fallback_now :: int

definition cache_fallback :: "insights_env \<Rightarrow> local_storage \<Rightarrow> storage_error + AIInsight list" where
  "cache_fallback env data =
     (if \<not> cache_get_ok env then Inl StorageError
      else
        (case cached_insights data of
           None \<Rightarrow> Inr []
         | Some cached \<Rightarrow>
             (case insights_cached_at data of
                None \<Rightarrow> Inr []
              | Some cachedAt \<Rightarrow>
                  if fallback_now env - cachedAt < 3600000 then Inr cached else Inr [])))"

definition getInsights ::
  "insights_env \<Rightarrow> local_storage \<Rightarrow> (storage_error + AIInsight list) \<times> local_storage" where
  "getInsights env data =
     (case live env of
        FetchFailed \<Rightarrow> (cache_fallback env data, data)
      | FetchOk insights \<Rightarrow>
          if \<not> cache_set_ok env then (cache_fallback env data, data)
          else (Inr insights,
                data\<lparr>cached_insights := Some insights, insights_cached_at := Some (cache_now env)\<rparr>))"

text \<open>
  Concrete runs of the submission path: a snapshot, a call whose POST comes back with
  status 500 one second after a million milliseconds, a store whose queue is full, a
  queue of two entries, the same queue with the id of the first entry on both, and a
  drain whose resubmissions are one second apart and all answered with status 200.
\<close>

definition small_workspace :: WorkspaceCapture where
  "small_workspace = \<lparr>timestamp = 990000, windows = []\<rparr>"

definition failing_env :: submit_env where
  "failing_env =
     \<lparr>check_now = 1001000, rate_get_ok = True, submit_now = 1001001,
      correlation_suffix = ''k3j9x0ab'', post = Response 500 True,
      update_now = 1001200, update_ok = True,
      failed_now = 1001200, failed_suffix = ''q1w2e3r4t'', failed_ok = True\<rparr>"

definition queued :: "int \<Rightarrow> FailedSubmission" where
  "queued k =
     \<lparr>fs_id = ''failed_'' @ show_int k @ ''_aaaaaaaaa'', fs_workspace = small_workspace,
      fs_userId = ''user_1'', fs_captureReason = Idle, fs_timestamp = k, retryCount = 0\<rparr>"

definition full_queue :: local_storage where
  "full_queue = empty_storage\<lparr>failed_submissions := Some (map queued [1, 2, 3, 4, 5, 6, 7, 8, 9, 10])\<rparr>"

definition two_queued :: local_storage where
  "two_queued = empty_storage\<lparr>failed_submissions := Some [queued 1, queued 2]\<rparr>"

definition twin_queued :: local_storage where
  "twin_queued =
     empty_storage\<lparr>failed_submissions := Some [queued 1, (queued 2)\<lparr>fs_id := fs_id (queued 1)\<rparr>]\<rparr>"

definition drain_env :: retry_env where
  "drain_env =
     \<lparr>retry_get_ok = True,
      submit_envs = (\<lambda>i. failing_env\<lparr>check_now := 2000000 + 1000 * int i,
                                       post := Response 200 True,
                                       update_now := 2000500 + 1000 * int i\<rparr>),
      retry_set_ok = True\<rparr>"

text \<open>A cache written at one million milliseconds, and a fetch that fails at time \<open>t\<close>.\<close>

definition an_insight :: AIInsight where
  "an_insight =
     \<lparr>insight_id = ''c-1'', insight_user_id = ''user_1'', insight_timestamp = 999000,
      insight_title = ''Budget review'', insight_description = ''On the budget sheet''\<rparr>"

definition cached_store :: local_storage where
  "cached_store =
     empty_storage\<lparr>cached_insights := Some [an_insight], insights_cached_at := Some 1000000\<rparr>"

definition offline_env :: "int \<Rightarrow> insights_env" where
  "offline_env t =
     \<lparr>live = FetchFailed, cache_now = t, cache_set_ok = True, cache_get_ok = True,
      fallback_now = t\<rparr>"

section \<open>Expiration sweep (background.ts)\<close>

text \<open>
  The whole of \<^verbatim>\<open>chrome.storage.local\<close> as \<^verbatim>\<open>get(null)\<close> returns it: the keys
  with their values, in the order \<^verbatim>\<open>Object.entries\<close> visits them. Snapshots are
  stored under \<^verbatim>\<open>workspace_<timestamp>\<close>, screenshots under
  \<^verbatim>\<open>img_<timestamp>_<tabId>\<close>; any other value is \<open>OtherValue\<close>.
\<close>

datatype stored_value = WorkspaceValue WorkspaceCapture | ImageValue string | OtherValue



text \<open>
  The screenshot keys a snapshot references, window by window and tab by tab:
  \<^verbatim>\<open>tab.snapshot.data?.screenshot && toBeDeleted.push(...)\<close> takes a non-empty
  string.
\<close>

definition tab_screenshot :: "TabSnapshot \<Rightarrow> string list" where
  "tab_screenshot tab =
     (case ps_data (snapshot tab) of
        None \<Rightarrow> []
      | Some d \<Rightarrow> (case screenshot d of Filename f \<Rightarrow> if f = [] then [] else [f] | _ \<Rightarrow> []))"

definition workspace_screenshots :: "WorkspaceCapture \<Rightarrow> string list" where
  "workspace_screenshots workspace =
     concat (map (\<lambda>window. concat (map tab_screenshot (tabs window))) (windows workspace))"
















section \<open>Triggers and the capturing flag (background.ts)\<close>

text \<open>
  The service worker runs one handler at a time, and a handler gives way to other
  events only at an \<^verbatim>\<open>await\<close>. A task is a handler suspended at an
  \<^verbatim>\<open>await\<close>:
  \<^item> the idle listener (lines 30 to 57) waits for \<^verbatim>\<open>chrome.storage.sync.get\<close> before it tests
    anything (\<open>IdleAwaitSettings\<close>);
  \<^item> when the test \<^verbatim>\<open>newState === "idle" && !isCapturing && settings.isActive\<close>
    passes, it waits for \<^verbatim>\<open>updateExtensionBadge("tracking")\<close> (\<open>IdleAwaitBadge\<close>),
    then for \<^verbatim>\<open>sendCaptureStatus("capturing")\<close> (\<open>IdleAwaitStatus\<close>), and only
    then calls \<^verbatim>\<open>captureWorkspace\<close>;
  \<^item> \<^verbatim>\<open>captureWorkspace\<close> (lines 183 to 375) sets \<^verbatim>\<open>isCapturing = true\<close> as its first statement
    and is in flight (\<open>InCapture\<close>) until it sets \<^verbatim>\<open>isCapturing = false\<close> at its
    end or in its \<^verbatim>\<open>catch\<close>.
  The other branches of the idle listener only update the badge and the status.
\<close>

datatype idle_state = StateActive | StateIdle | StateLocked

datatype message = ToggleCapture bool | UpdateIdleTime | ManualCapture

datatype task = IdleAwaitSettings idle_state | IdleAwaitBadge | IdleAwaitStatus | InCapture | Finished

record background =
  isCapturing :: bool
  settings_isActive :: bool
  tasks :: "task list"

datatype event = IdleStateChanged idle_state | Message message | Resume nat

definition initial_background :: background where
  "initial_background = \<lparr>isCapturing = False, settings_isActive = True, tasks = []\<rparr>"

text \<open>Task \<open>i\<close> runs from the \<^verbatim>\<open>await\<close> it is suspended at to its next one.\<close>

definition resume_task :: "background \<Rightarrow> nat \<Rightarrow> background" where
  "resume_task bg i =
     (if i \<ge> length (tasks bg) then bg
      else
        (case tasks bg ! i of
           IdleAwaitSettings newState \<Rightarrow>
             if newState = StateIdle \<and> \<not> isCapturing bg \<and> settings_isActive bg
             then bg\<lparr>tasks := (tasks bg)[i := IdleAwaitBadge]\<rparr>
             else bg\<lparr>tasks := (tasks bg)[i := Finished]\<rparr>
         | IdleAwaitBadge \<Rightarrow> bg\<lparr>tasks := (tasks bg)[i := IdleAwaitStatus]\<rparr>
         | IdleAwaitStatus \<Rightarrow> bg\<lparr>isCapturing := True, tasks := (tasks bg)[i := InCapture]\<rparr>
         | InCapture \<Rightarrow> bg\<lparr>isCapturing := False, tasks := (tasks bg)[i := Finished]\<rparr>
         | Finished \<Rightarrow> bg))"

text \<open>
  An event is dispatched: a new handler runs to its first \<^verbatim>\<open>await\<close>, or a
  suspended one is resumed. The message listener (lines 59 to 84) acts before any
  \<^verbatim>\<open>await\<close>:
  \<^verbatim>\<open>toggleCapture\<close> clears the flag and stores the setting,
  \<^verbatim>\<open>manualCapture\<close> tests the flag and calls \<^verbatim>\<open>captureWorkspace\<close>.
\<close>

definition dispatch :: "background \<Rightarrow> event \<Rightarrow> background" where
  "dispatch bg ev =
     (case ev of
        IdleStateChanged newState \<Rightarrow> bg\<lparr>tasks := tasks bg @ [IdleAwaitSettings newState]\<rparr>
      | Message (ToggleCapture active) \<Rightarrow> bg\<lparr>isCapturing := False, settings_isActive := active\<rparr>
      | Message UpdateIdleTime \<Rightarrow> bg
      | Message ManualCapture \<Rightarrow>
          if \<not> isCapturing bg then bg\<lparr>isCapturing := True, tasks := tasks bg @ [InCapture]\<rparr>
          else bg
      | Resume i \<Rightarrow> resume_task bg i)"

definition in_flight :: "background \<Rightarrow> nat" where
  "in_flight bg = length (filter (\<lambda>t. t = InCapture) (tasks bg))"

text \<open>
  The user goes idle; the idle listener passes its test and waits for the badge; a
  manual capture is asked for; the idle listener goes on.
\<close>

definition idle_then_manual :: "event list" where
  "idle_then_manual =
     [IdleStateChanged StateIdle, Resume 0, Message ManualCapture, Resume 0, Resume 0]"

text \<open>
  The extraction routine returns its screenshot field empty (\<^verbatim>\<open>null\<close>, or no
  field at all): it never returns a file name.
\<close>

definition fresh_results :: "capture_env \<Rightarrow> bool" where
  "fresh_results env =
     (\<forall>tab r d f. executeScript env tab = ScriptResult r \<and> ps_data r = Some d \<longrightarrow>
        screenshot d \<noteq> Filename f)"

section \<open>Properties\<close>


subsection \<open>Rate limiting\<close>















subsection \<open>Workspace capture\<close>

lemma capture_tab_tabs:
  "length (tabs (capture_tab env ws t)) =
     length (tabs ws) + (if tab_eligible t \<and> \<not> script_failed env t then 1 else 0)"
  by (auto simp: capture_tab_def script_failed_def tab_eligible_def Let_def
      split: option.splits script_outcome.splits)

lemma foldl_capture_tab_tabs:
  "length (tabs (foldl (capture_tab env) ws ts)) =
     length (tabs ws) + length (filter (\<lambda>t. tab_eligible t \<and> \<not> script_failed env t) ts)"
  by (induction ts arbitrary: ws) (simp_all add: capture_tab_tabs)

lemma length_set_active_screenshot [simp]:
  "length (set_active_screenshot f xs) = length xs"
  by (induction xs) simp_all

lemma capture_window_tabs:
  "length (tabs (snd (capture_window env ts w))) =
     length (filter (\<lambda>t. tab_eligible t \<and> \<not> script_failed env t) (win_tabs w))"
  by (simp add: capture_window_def Let_def foldl_capture_tab_tabs
      split: option.splits shot_outcome.splits)

lemma count_split:
  "length (filter (\<lambda>t. P t \<and> \<not> Q t) xs) + length (filter (\<lambda>t. P t \<and> Q t) xs) = length (filter P xs)"
  by (induction xs) auto

lemma capture_window_count:
  "length (tabs (snd (capture_window env ts w))) = eligible_count w - failed_count env w"
  unfolding eligible_count_def failed_count_def capture_window_tabs
  using count_split[of tab_eligible "script_failed env" "win_tabs w"] by simp

lemma failed_le_eligible: "failed_count env w \<le> eligible_count w"
  unfolding eligible_count_def failed_count_def
  using count_split[of tab_eligible "script_failed env" "win_tabs w"] by simp

lemma capture_windows_snapshots:
  "snd (capture_windows env ts wins) =
     map (\<lambda>w. snd (capture_window env ts w))
       (filter (\<lambda>w. failed_count env w < eligible_count w) wins)"
proof (induction wins)
  case Nil
  then show ?case by simp
next
  case (Cons w wins)
  show ?case
  proof (cases "win_tabs w = []")
    case True
    then have "eligible_count w = 0" by (simp add: eligible_count_def)
    then show ?thesis using True Cons by simp
  next
    case False
    have "(tabs (snd (capture_window env ts w)) \<noteq> []) = (failed_count env w < eligible_count w)"
      using capture_window_count[of env ts w] failed_le_eligible[of env w]
      by (metis length_greater_0_conv zero_less_diff)
    then show ?thesis using False Cons
      by (simp add: split_beta Let_def)
  qed
qed

lemma show_int_1000: "show_int 1000 = ''1000''" "show_int 11 = ''11''" "show_int 22 = ''22''"
  by (simp_all add: show_int_def show_nat.simps digit_char_def)

text \<open>
  C3. Of the \<open>eligible_count\<close> eligible tabs of a window, the \<open>failed_count\<close> whose
  extraction fails are left out and the others are all in the window snapshot; the
  windows of the workspace snapshot are those with a captured tab, in order, so a window
  whose eligible tabs all fail is omitted. No extraction outcome aborts the capture: it
  fails only when enumerating the windows or persisting the snapshot throws.
\<close>

theorem capture_isolates_tab_failures:
  "failed_count env w \<le> eligible_count w \<and>
   length (tabs (snd (capture_window env ts w))) = eligible_count w - failed_count env w \<and>
   snd (capture_windows env ts wins) =
     map (\<lambda>w. snd (capture_window env ts w))
       (filter (\<lambda>w. failed_count env w < eligible_count w) wins) \<and>
   snd (captureWorkspace env ts) =
     (case windows_getAll env of
        None \<Rightarrow> Inl CaptureError
      | Some all_windows \<Rightarrow>
          if workspace_set_ok env
          then Inr \<lparr>timestamp = ts, windows = snd (capture_windows env ts all_windows)\<rparr>
          else Inl CaptureError)"
proof -
  have "snd (captureWorkspace env ts) =
     (case windows_getAll env of
        None \<Rightarrow> Inl CaptureError
      | Some all_windows \<Rightarrow>
          if workspace_set_ok env
          then Inr \<lparr>timestamp = ts, windows = snd (capture_windows env ts all_windows)\<rparr>
          else Inl CaptureError)"
    by (simp add: captureWorkspace_def split_beta Let_def split: option.splits)
  then show ?thesis
    using failed_le_eligible[of env w] capture_window_count[of env ts w]
      capture_windows_snapshots[of env ts wins]
    by (intro conjI)
qed

text \<open>
  The scenario of the specification: the result has both windows, the first with the two
  tabs whose extraction succeeded.
\<close>

lemma capture_scenario:
  "\<exists>workspace. snd (captureWorkspace three_tabs_env 1000) = Inr workspace \<and>
     map (\<lambda>w. (windowId w, map tabId (tabs w))) (windows workspace) = [(1, [1, 3]), (2, [4])]"
  by (simp add: captureWorkspace_def three_tabs_env_def capture_window_def capture_tab_def
      tab_eligible_def plain_page_def needs_screenshot_def Let_def)

lemma foldl_no_active:
  "\<forall>t\<in>set ts. tab_active t \<longrightarrow> \<not> tab_eligible t \<or> script_failed env t \<Longrightarrow>
   activeTabId (foldl (capture_tab env) ws ts) = activeTabId ws \<and>
   (\<forall>x\<in>set (tabs (foldl (capture_tab env) ws ts)). x \<in> set (tabs ws) \<or> \<not> isActive x)"
proof (induction ts arbitrary: ws)
  case Nil
  then show ?case by simp
next
  case (Cons t ts)
  have step: "activeTabId (capture_tab env ws t) = activeTabId ws \<and>
      (\<forall>x\<in>set (tabs (capture_tab env ws t)). x \<in> set (tabs ws) \<or> \<not> isActive x)"
    using Cons.prems
    by (auto simp: capture_tab_def script_failed_def Let_def
        split: option.splits script_outcome.splits)
  have "\<forall>t\<in>set ts. tab_active t \<longrightarrow> \<not> tab_eligible t \<or> script_failed env t"
    using Cons.prems by simp
  from Cons.IH[OF this, of "capture_tab env ws t"] step show ?case by auto
qed

text \<open>
  C10. When every active tab of a window is skipped or fails extraction, the window
  snapshot keeps the sentinel \<open>activeTabId = -1\<close>, and the screenshot block neither
  calls \<^verbatim>\<open>captureVisibleTab\<close> nor stores an image for that window.
\<close>

theorem skipped_active_tab_sentinel:
  assumes "\<forall>t\<in>set (win_tabs w). tab_active t \<longrightarrow> \<not> tab_eligible t \<or> script_failed env t"
  shows "activeTabId (snd (capture_window env ts w)) = - 1 \<and>
         screenshot_calls (fst (capture_window env ts w)) = [] \<and>
         stored_images (fst (capture_window env ts w)) = []"
proof -
  let ?ws = "foldl (capture_tab env) \<lparr>windowId = win_id w, activeTabId = - 1, tabs = []\<rparr> (win_tabs w)"
  have a: "activeTabId ?ws = - 1" and b: "\<forall>x\<in>set (tabs ?ws). \<not> isActive x"
    using foldl_no_active[OF assms, of "\<lparr>windowId = win_id w, activeTabId = - 1, tabs = []\<rparr>"]
    by auto
  have "find isActive (tabs ?ws) = None"
    using b by (simp add: find_None_iff)
  then have "capture_window env ts w = ([], ?ws)"
    by (simp add: capture_window_def needs_screenshot_def Let_def)
  then show ?thesis using a by (simp add: screenshot_calls_def stored_images_def)
qed

theorem skipped_active_tab_sentinel_witness:
  "activeTabId (snd (capture_window two_docs_windows 1000 settings_window)) = - 1 \<and>
   screenshot_calls (fst (capture_window two_docs_windows 1000 settings_window)) = [] \<and>
   stored_images (fst (capture_window two_docs_windows 1000 settings_window)) = [] \<and>
   map tabId (tabs (snd (capture_window two_docs_windows 1000 settings_window))) = [6]"
proof -
  have h: "\<forall>t\<in>set (win_tabs settings_window).
      tab_active t \<longrightarrow> \<not> tab_eligible t \<or> script_failed two_docs_windows t"
    by (simp add: settings_window_def tab_eligible_def)
  have "map tabId (tabs (snd (capture_window two_docs_windows 1000 settings_window))) = [6]"
    by (simp add: capture_window_def settings_window_def two_docs_windows_def capture_tab_def
        tab_eligible_def docs_page_def needs_screenshot_def Let_def)
  with skipped_active_tab_sentinel[OF h, of 1000] show ?thesis by simp
qed

lemma capture_window_images:
  "length (stored_images (fst (capture_window env ts w))) \<le>
     (if tabs (snd (capture_window env ts w)) = [] then 0 else 1)"
proof -
  let ?ws = "foldl (capture_tab env) \<lparr>windowId = win_id w, activeTabId = - 1, tabs = []\<rparr> (win_tabs w)"
  show ?thesis
  proof (cases "find isActive (tabs ?ws)")
    case None
    then show ?thesis
      by (simp add: capture_window_def needs_screenshot_def Let_def stored_images_def)
  next
    case (Some tab)
    then have "tab \<in> set (tabs ?ws)"
      by (auto simp: find_Some_iff)
    then have ne: "tabs ?ws \<noteq> []" by auto
    then have "set_active_screenshot f (tabs ?ws) \<noteq> []" for f
      by (metis length_0_conv length_set_active_screenshot)
    then show ?thesis using Some ne
      by (simp add: capture_window_def Let_def stored_images_def split: shot_outcome.splits)
  qed
qed

lemma stored_images_append [simp]:
  "stored_images (xs @ ys) = stored_images xs @ stored_images ys"
  by (simp add: stored_images_def)

lemma capture_windows_images:
  "length (stored_images (fst (capture_windows env ts wins))) \<le> length (snd (capture_windows env ts wins))"
proof (induction wins)
  case Nil
  then show ?case by (simp add: stored_images_def)
next
  case (Cons w wins)
  show ?case
  proof (cases "win_tabs w = []")
    case True
    then show ?thesis using Cons by simp
  next
    case False
    then show ?thesis using Cons capture_window_images[of env ts w]
      by (auto simp: split_beta Let_def split: if_splits)
  qed
qed

lemma capture_tab_snapshot:
  "tabs (capture_tab env ws tab) =
     tabs ws @ (case tab_snapshot env tab of None \<Rightarrow> [] | Some s \<Rightarrow> [s])"
  by (auto simp: capture_tab_def tab_snapshot_def Let_def
      split: option.splits script_outcome.splits)

lemma foldl_capture_tab_snapshots:
  "tabs (foldl (capture_tab env) ws ts) = tabs ws @ List.map_filter (tab_snapshot env) ts"
proof (induction ts arbitrary: ws)
  case Nil
  then show ?case by (simp add: List.map_filter_simps)
next
  case (Cons t ts)
  show ?case
    by (simp add: Cons capture_tab_snapshot List.map_filter_simps split: option.splits)
qed

lemma capture_window_blob:
  "stored_images (fst (capture_window env ts w)) =
     (case window_blob env ts w of None \<Rightarrow> [] | Some b \<Rightarrow> [b])"
proof -
  let ?ws = "foldl (capture_tab env) \<lparr>windowId = win_id w, activeTabId = - 1, tabs = []\<rparr> (win_tabs w)"
  have "find isActive (tabs ?ws) = screenshot_tab env w"
    by (simp add: foldl_capture_tab_snapshots screenshot_tab_def)
  then show ?thesis
    by (simp add: capture_window_def window_blob_def needs_screenshot_def stored_images_def Let_def
        split: option.splits shot_outcome.splits)
qed

lemma no_tabs_no_blob: "win_tabs w = [] \<Longrightarrow> window_blob env ts w = None"
  by (simp add: window_blob_def screenshot_tab_def List.map_filter_simps)

lemma capture_windows_blobs:
  "stored_images (fst (capture_windows env ts wins)) = List.map_filter (window_blob env ts) wins"
proof (induction wins)
  case Nil
  then show ?case by (simp add: stored_images_def List.map_filter_simps)
next
  case (Cons w wins)
  show ?case
  proof (cases "win_tabs w = []")
    case True
    then show ?thesis using Cons no_tabs_no_blob[OF True, of env ts]
      by (simp add: List.map_filter_simps)
  next
    case False
    then show ?thesis using Cons capture_window_blob[of env ts w]
      by (simp add: split_beta Let_def List.map_filter_simps split: option.splits)
  qed
qed

text \<open>
  C7, as the code has it. The screenshot block stands inside the loop over the windows,
  so the bound is one blob per window, not one per capture. A window stores exactly the
  blob of \<open>window_blob\<close>: one image, keyed \<^verbatim>\<open>img_<timestamp>_<tabId>\<close>, when its
  first captured active tab carries structured data with a \<^verbatim>\<open>null\<close> screenshot
  field, \<^verbatim>\<open>captureVisibleTab\<close> returns a non-empty image and the store takes it;
  none otherwise. A capture stores the blobs of its windows in order, as many as it has
  windows with a blob, and never more than its snapshot has windows.
\<close>

theorem one_screenshot_per_window:
  "stored_images (fst (capture_window env ts w)) =
     (case window_blob env ts w of None \<Rightarrow> [] | Some blob \<Rightarrow> [blob]) \<and>
   length (stored_images (fst (capture_window env ts w))) \<le> 1 \<and>
   stored_images (fst (capture_windows env ts wins)) = List.map_filter (window_blob env ts) wins \<and>
   length (stored_images (fst (capture_windows env ts wins))) =
     length (filter (\<lambda>w. window_blob env ts w \<noteq> None) wins) \<and>
   length (stored_images (fst (capture_windows env ts wins))) \<le>
     length (snd (capture_windows env ts wins)) \<and>
   stored_images (fst (captureWorkspace env ts)) =
     (case windows_getAll env of
        None \<Rightarrow> []
      | Some all_windows \<Rightarrow> List.map_filter (window_blob env ts) all_windows)"
proof -
  have count: "length (List.map_filter f xs) = length (filter (\<lambda>x. f x \<noteq> None) xs)"
    for f :: "ChromeWindow \<Rightarrow> (string \<times> string) option" and xs
    by (induction xs) (auto simp: List.map_filter_simps split: option.splits)
  have one: "length (stored_images (fst (capture_window env ts w))) \<le> 1"
    using capture_window_images[of env ts w] by (simp split: if_splits)
  have all: "stored_images (fst (captureWorkspace env ts)) =
     (case windows_getAll env of
        None \<Rightarrow> []
      | Some all_windows \<Rightarrow> stored_images (fst (capture_windows env ts all_windows)))"
    by (simp add: captureWorkspace_def split_beta Let_def stored_images_def split: option.splits)
  have all': "stored_images (fst (captureWorkspace env ts)) =
     (case windows_getAll env of
        None \<Rightarrow> []
      | Some all_windows \<Rightarrow> List.map_filter (window_blob env ts) all_windows)"
    unfolding all by (simp add: capture_windows_blobs split: option.splits)
  have n: "length (stored_images (fst (capture_windows env ts wins))) =
     length (filter (\<lambda>w. window_blob env ts w \<noteq> None) wins)"
    unfolding capture_windows_blobs by (rule count)
  show ?thesis
    using capture_window_blob[of env ts w] one capture_windows_blobs[of env ts wins] n
      capture_windows_images[of env ts wins] all'
    by (intro conjI)
qed

text \<open>
  No blob is stored for a window whose \<^verbatim>\<open>captureVisibleTab\<close> call throws, whatever
  its tabs.
\<close>

lemma no_blob_when_shot_throws:
  "captureVisibleTab env (win_id w) = ShotThrew \<Longrightarrow> stored_images (fst (capture_window env ts w)) = []"
  by (simp add: capture_window_blob window_blob_def split: option.splits)

text \<open>
  C7 as stated fails: the capture of \<open>two_docs_windows\<close> stores two screenshot blobs,
  one for the active tab of each window.
\<close>

theorem two_screenshots_counterexample:
  "stored_images (fst (captureWorkspace two_docs_windows 1000)) =
     [(''img_1000_11'', ''jpeg''), (''img_1000_22'', ''jpeg'')]"
  by (simp add: captureWorkspace_def two_docs_windows_def capture_window_def capture_tab_def
      tab_eligible_def docs_page_def needs_screenshot_def stored_images_def show_int_1000 Let_def)

subsection \<open>Submission and the retry queue\<close>

lemma slice_last_snoc: "slice_last (Suc n) (xs @ [x]) = slice_last n xs @ [x]"
  by (simp add: slice_last_def)

lemma length_slice_last: "length (slice_last n xs) = min n (length xs)"
  by (simp add: slice_last_def)

lemma slice_last_full: "length xs = Suc n \<Longrightarrow> slice_last n xs = tl xs"
  by (cases xs) (simp_all add: slice_last_def)

lemma queue_store_failed:
  "queue (storeFailedSubmission env w u r data) =
     (if failed_ok env then slice_last 10 (queue data @ [new_failed env w u r]) else queue data)"
  by (simp add: storeFailedSubmission_def queue_def Let_def)

lemma queue_update [simp]: "queue (updateRateLimitCounters now ok data) = queue data"
  by (simp add: updateRateLimitCounters_def queue_def Let_def)

lemma submitContext_failed:
  assumes "post_made env w data" "post_failed (post env)"
  shows "submitContext env w u r data = (None, storeFailedSubmission env w u r data)"
  using assms
  by (auto simp: submitContext_def post_made_def post_failed_def Let_def split: post_outcome.splits)

lemma submitContext_cases:
  "submitContext env w u r data = (None, data) \<or>
   submitContext env w u r data = (None, storeFailedSubmission env w u r data) \<or>
   submitContext env w u r data =
     (Some (''c-'' @ show_int (submit_now env) @ ''-'' @ correlation_suffix env),
      updateRateLimitCounters (update_now env) (update_ok env) data)"
  by (simp add: submitContext_def Let_def split: post_outcome.splits)

lemma submitContext_truthy: "fst (submitContext env w u r data) \<noteq> Some []"
  using submitContext_cases[of env w u r data] by auto

lemma store_failed_bounded:
  "length (queue data) \<le> 10 \<Longrightarrow> length (queue (storeFailedSubmission env w u r data)) \<le> 10"
  by (simp add: queue_store_failed length_slice_last)

lemma submitContext_bounded:
  "length (queue data) \<le> 10 \<Longrightarrow> length (queue (snd (submitContext env w u r data))) \<le> 10"
  using submitContext_cases[of env w u r data] store_failed_bounded[of data env w u r] by auto

lemma retry_loop_bounded:
  "length (queue data) \<le> 10 \<Longrightarrow> length (queue (snd (snd (snd (retry_loop envs i q data))))) \<le> 10"
proof (induction q arbitrary: i data)
  case Nil
  then show ?case by simp
next
  case (Cons s q)
  let ?d = "snd (submitContext (envs i) (fs_workspace s) (fs_userId s) (fs_captureReason s) data)"
  have "length (queue ?d) \<le> 10" using Cons.prems by (rule submitContext_bounded)
  from Cons.IH[OF this, of "Suc i"] show ?case
    by (simp add: split_beta Let_def)
qed

lemma retry_bounded:
  assumes "length (queue data) \<le> 10"
  shows "length (queue (retryFailedSubmissions env data)) \<le> 10"
proof -
  have f: "length (filter P (queue data)) \<le> 10" for P
    using assms length_filter_le[of P "queue data"] by linarith
  show ?thesis
    using assms retry_loop_bounded[OF assms, of "submit_envs env" 0 "queue data"] f
    by (simp add: retryFailedSubmissions_def split_beta Let_def queue_def)
qed

lemma show_int_examples:
  "show_int 1 = ''1''" "show_int 2 = ''2''" "show_int 1001200 = ''1001200''"
  "show_int 1001001 = ''1001001''" "show_int 2000000 = ''2000000''"
  by (simp_all add: show_int_def show_nat.simps digit_char_def)

text \<open>
  C4. When the POST of a call to \<^verbatim>\<open>submitContext\<close> is made and ends in a network
  error or a status outside 200..299, and the store takes the write, the call returns
  \<^verbatim>\<open>null\<close> and leaves the store as it was but for the queue, which is the old queue
  with the one new entry at its end, cut to its last 10. The call never raises: every
  path of \<open>submitContext\<close> returns a value.
\<close>

theorem failed_post_is_queued:
  assumes "post_made env workspace data" and "post_failed (post env)" and "failed_ok env"
  shows "fst (submitContext env workspace userId reason data) = None \<and>
         snd (submitContext env workspace userId reason data) =
           data\<lparr>failed_submissions :=
             Some (slice_last 10 (queue data @ [new_failed env workspace userId reason]))\<rparr> \<and>
         queue (snd (submitContext env workspace userId reason data)) =
           slice_last 9 (queue data) @ [new_failed env workspace userId reason]"
proof -
  have r: "submitContext env workspace userId reason data =
      (None, storeFailedSubmission env workspace userId reason data)"
    using assms(1,2) by (rule submitContext_failed)
  have s: "storeFailedSubmission env workspace userId reason data =
      data\<lparr>failed_submissions :=
        Some (slice_last 10 (queue data @ [new_failed env workspace userId reason]))\<rparr>"
    using assms(3) by (simp add: storeFailedSubmission_def Let_def)
  have q: "queue (storeFailedSubmission env workspace userId reason data) =
      slice_last 9 (queue data) @ [new_failed env workspace userId reason]"
    using assms(3) slice_last_snoc[of 9 "queue data"] by (simp add: queue_store_failed)
  show ?thesis using r s q by simp
qed

theorem failed_post_is_queued_witness:
  "fst (submitContext failing_env small_workspace ''user_1'' Idle empty_storage) = None \<and>
   queue (snd (submitContext failing_env small_workspace ''user_1'' Idle empty_storage)) =
     [\<lparr>fs_id = ''failed_1001200_q1w2e3r4t'', fs_workspace = small_workspace,
       fs_userId = ''user_1'', fs_captureReason = Idle, fs_timestamp = 1001200, retryCount = 0\<rparr>]"
proof -
  have made: "post_made failing_env small_workspace empty_storage"
    by (simp add: post_made_def failing_env_def small_workspace_def empty_storage_def
        shouldSubmitContext_def valid_date_def num_or_def Let_def
        MIN_INTERVAL_MS_def MAX_REQUESTS_PER_MINUTE_def MAX_REQUESTS_PER_HOUR_def)
  have failed: "post_failed (post failing_env)"
    by (simp add: post_failed_def failing_env_def response_ok_def)
  have ok: "failed_ok failing_env"
    by (simp add: failing_env_def)
  have q: "queue empty_storage = []"
    by (simp add: queue_def empty_storage_def)
  have e: "new_failed failing_env small_workspace ''user_1'' Idle =
     \<lparr>fs_id = ''failed_1001200_q1w2e3r4t'', fs_workspace = small_workspace,
       fs_userId = ''user_1'', fs_captureReason = Idle, fs_timestamp = 1001200, retryCount = 0\<rparr>"
    by (simp add: new_failed_def failing_env_def show_int_examples)
  have s: "slice_last 9 (queue empty_storage) = []"
    by (simp add: q slice_last_def)
  from failed_post_is_queued[OF made failed ok, of "''user_1''" Idle]
  have "fst (submitContext failing_env small_workspace ''user_1'' Idle empty_storage) = None"
    and "queue (snd (submitContext failing_env small_workspace ''user_1'' Idle empty_storage)) =
      slice_last 9 (queue empty_storage) @ [new_failed failing_env small_workspace ''user_1'' Idle]"
    by blast+
  then show ?thesis
    unfolding s e by simp
qed

text \<open>
  C5. A queue of at most 10 entries has at most 10 after each operation that writes it
  (\<^verbatim>\<open>storeFailedSubmission\<close>, \<^verbatim>\<open>submitContext\<close>, \<^verbatim>\<open>retryFailedSubmissions\<close>);
  the empty store starts with none. Storing into a queue of exactly 10 drops the oldest
  entry and puts the new one last.
\<close>

theorem retry_queue_capacity:
  assumes "length (queue data) \<le> 10"
  shows "length (queue (storeFailedSubmission env w u r data)) \<le> 10 \<and>
         length (queue (snd (submitContext env w u r data))) \<le> 10 \<and>
         length (queue (retryFailedSubmissions renv data)) \<le> 10 \<and>
         queue empty_storage = [] \<and>
         (failed_ok env \<and> length (queue data) = 10 \<longrightarrow>
            queue (storeFailedSubmission env w u r data) = tl (queue data) @ [new_failed env w u r])"
proof -
  have evict: "queue (storeFailedSubmission env w u r data) = tl (queue data) @ [new_failed env w u r]"
    if "failed_ok env" "length (queue data) = 10"
  proof -
    have "slice_last 9 (queue data) = tl (queue data)"
      using that(2) by (intro slice_last_full) simp
    then show ?thesis
      using that(1) slice_last_snoc[of 9 "queue data"] by (simp add: queue_store_failed)
  qed
  have "queue empty_storage = []"
    by (simp add: queue_def empty_storage_def)
  then show ?thesis
    using store_failed_bounded[OF assms] submitContext_bounded[OF assms] retry_bounded[OF assms] evict
    by simp
qed

theorem retry_queue_capacity_witness:
  "length (queue full_queue) = 10 \<and>
   map fs_timestamp (queue (storeFailedSubmission failing_env small_workspace ''user_1'' Idle full_queue)) =
     [2, 3, 4, 5, 6, 7, 8, 9, 10, 1001200]"
proof -
  have len: "length (queue full_queue) \<le> 10" and len': "length (queue full_queue) = 10"
    by (simp_all add: full_queue_def queue_def)
  have ok: "failed_ok failing_env"
    by (simp add: failing_env_def)
  from retry_queue_capacity[OF len, of failing_env small_workspace "''user_1''" Idle]
  have "queue (storeFailedSubmission failing_env small_workspace ''user_1'' Idle full_queue) =
      tl (queue full_queue) @ [new_failed failing_env small_workspace ''user_1'' Idle]"
    using ok len' by simp
  then show ?thesis
    using len' by (simp add: full_queue_def queue_def queued_def new_failed_def failing_env_def)
qed

lemma retry_loop_calls:
  "fst (retry_loop envs i q data) = map (\<lambda>s. (fs_workspace s, fs_userId s, fs_captureReason s)) q"
  by (induction q arbitrary: i data) (simp_all add: split_beta Let_def)

lemma retry_loop_results:
  "fst (snd (retry_loop envs i q data)) =
     fst (submit_each envs i (map (\<lambda>s. (fs_workspace s, fs_userId s, fs_captureReason s)) q) data) \<and>
   snd (snd (snd (retry_loop envs i q data))) =
     snd (submit_each envs i (map (\<lambda>s. (fs_workspace s, fs_userId s, fs_captureReason s)) q) data)"
  by (induction q arbitrary: i data) (simp_all add: split_beta Let_def)

lemma retry_loop_length: "length (fst (snd (retry_loop envs i q data))) = length q"
  by (induction q arbitrary: i data) (simp_all add: split_beta Let_def)

lemma retry_loop_successful:
  "fst (snd (snd (retry_loop envs i q data))) =
     map fs_id (map fst (filter (\<lambda>(entry, result). result \<noteq> None)
       (zip q (fst (snd (retry_loop envs i q data))))))"
proof (induction q arbitrary: i data)
  case Nil
  then show ?case by simp
next
  case (Cons s q)
  let ?r = "submitContext (envs i) (fs_workspace s) (fs_userId s) (fs_captureReason s) data"
  have truthy: "fst ?r \<noteq> Some []" by (rule submitContext_truthy)
  show ?case
    using Cons[of "Suc i" "snd ?r"] truthy
    by (simp add: split_beta Let_def)
qed

lemma filter_by_key:
  "distinct (map f q) \<Longrightarrow> length rs = length q \<Longrightarrow>
   filter (\<lambda>s. f s \<notin> set (map f (map fst (filter (\<lambda>(e, r). P r) (zip q rs))))) q =
     map fst (filter (\<lambda>(e, r). \<not> P r) (zip q rs))"
proof (induction q arbitrary: rs)
  case Nil
  then show ?case by simp
next
  case (Cons s q)
  then obtain r rs' where rs: "rs = r # rs'" by (cases rs) auto
  have d: "distinct (map f q)" and fresh: "f s \<notin> f ` set q" and len: "length rs' = length q"
    using Cons.prems rs by auto
  let ?ids = "set (map f (map fst (filter (\<lambda>(e, r). P r) (zip q rs'))))"
  have sub: "?ids \<subseteq> f ` set q"
    by (auto dest: set_zip_leftD)
  have ih: "filter (\<lambda>x. f x \<notin> ?ids) q = map fst (filter (\<lambda>(e, r). \<not> P r) (zip q rs'))"
    by (rule Cons.IH[OF d len])
  have same: "filter (\<lambda>x. f x \<noteq> f s \<and> f x \<notin> ?ids) q = filter (\<lambda>x. f x \<notin> ?ids) q"
  proof (rule filter_cong)
    fix x assume "x \<in> set q"
    then have "f x \<noteq> f s" using fresh by (metis imageI)
    then show "(f x \<noteq> f s \<and> f x \<notin> ?ids) = (f x \<notin> ?ids)" by simp
  qed simp
  have notin: "f s \<notin> ?ids" using sub fresh by blast
  show ?case
  proof (cases "P r")
    case True
    then show ?thesis using ih same rs by simp
  next
    case False
    then show ?thesis using ih notin rs by simp
  qed
qed

lemma subseq_filter_left: "subseq (filter P xs) xs"
  by (induction xs) auto

lemma drain_two_results:
  "drain_results drain_env two_queued = [Some ''c-1001001-k3j9x0ab'', None]"
  "drain_results drain_env twin_queued = [Some ''c-1001001-k3j9x0ab'', None]"
  by (simp_all add: drain_results_def two_queued_def twin_queued_def queue_def drain_env_def
      failing_env_def submitContext_def empty_storage_def shouldSubmitContext_def
      updateRateLimitCounters_def valid_date_def response_ok_def num_or_def Let_def queued_def
      small_workspace_def show_int_examples
      MIN_INTERVAL_MS_def MAX_REQUESTS_PER_MINUTE_def MAX_REQUESTS_PER_HOUR_def)

text \<open>
  C6, as the code has it. With the store answering the read and the write, a drain calls
  \<^verbatim>\<open>submitContext\<close> once for each queued entry, in order, with the entry's stored
  snapshot, user id and reason, and its results are those of these calls made one after
  the other. The queue it leaves holds the entries whose id is not the id of an entry
  whose resubmission returned a correlation id, in their old order and unchanged,
  \<open>retryCount\<close> included. When the queued ids are pairwise distinct these are exactly
  the entries whose own resubmission returned \<^verbatim>\<open>null\<close>.
\<close>

theorem drain_filters_by_id:
  assumes "retry_get_ok env" and "retry_set_ok env"
  shows "drain_calls env data =
           map (\<lambda>s. (fs_workspace s, fs_userId s, fs_captureReason s)) (queue data) \<and>
         drain_results env data = fst (submit_each (submit_envs env) 0 (drain_calls env data) data) \<and>
         length (drain_results env data) = length (queue data) \<and>
         queue (retryFailedSubmissions env data) =
           filter (\<lambda>s. fs_id s \<notin> set (map fs_id (resubmitted env data))) (queue data) \<and>
         (distinct (map fs_id (queue data)) \<longrightarrow>
            queue (retryFailedSubmissions env data) = not_resubmitted env data) \<and>
         subseq (queue (retryFailedSubmissions env data)) (queue data)"
proof -
  let ?q = "queue data"
  let ?loop = "retry_loop (submit_envs env) 0 ?q data"
  have calls: "drain_calls env data = map (\<lambda>s. (fs_workspace s, fs_userId s, fs_captureReason s)) ?q"
    by (simp add: drain_calls_def retry_loop_calls)
  have results: "drain_results env data = fst (submit_each (submit_envs env) 0 (drain_calls env data) data)"
    unfolding calls by (simp add: drain_results_def retry_loop_results)
  have len: "length (drain_results env data) = length ?q"
    by (simp add: drain_results_def retry_loop_length)
  have succ: "fst (snd (snd ?loop)) = map fs_id (resubmitted env data)"
    unfolding resubmitted_def drain_results_def by (rule retry_loop_successful)
  have left: "queue (retryFailedSubmissions env data) =
      filter (\<lambda>s. fs_id s \<notin> set (map fs_id (resubmitted env data))) ?q"
  proof (cases "?q = []")
    case True
    then show ?thesis using assms(1) by (simp add: retryFailedSubmissions_def)
  next
    case False
    have "queue (retryFailedSubmissions env data) =
        filter (\<lambda>s. fs_id s \<notin> set (fst (snd (snd ?loop)))) ?q"
      using False assms by (simp add: retryFailedSubmissions_def split_beta Let_def queue_def)
    then show ?thesis unfolding succ .
  qed
  have own: "queue (retryFailedSubmissions env data) = not_resubmitted env data"
    if "distinct (map fs_id ?q)"
    unfolding left resubmitted_def not_resubmitted_def
    using filter_by_key[OF that len, of "\<lambda>r. r \<noteq> None"] by simp
  have sub: "subseq (queue (retryFailedSubmissions env data)) ?q"
    unfolding left by (rule subseq_filter_left)
  show ?thesis using calls results len left own sub by blast
qed

theorem drain_filters_by_id_witness:
  "drain_calls drain_env two_queued =
     [(small_workspace, ''user_1'', Idle), (small_workspace, ''user_1'', Idle)] \<and>
   drain_results drain_env two_queued = [Some ''c-1001001-k3j9x0ab'', None] \<and>
   queue (retryFailedSubmissions drain_env two_queued) = [queued 2]"
proof -
  have g: "retry_get_ok drain_env" and w: "retry_set_ok drain_env"
    by (simp_all add: drain_env_def)
  have q: "queue two_queued = [queued 1, queued 2]"
    by (simp add: two_queued_def queue_def)
  have d: "distinct (map fs_id (queue two_queued))"
    unfolding q by (simp add: queued_def show_int_examples)
  have c0: "drain_calls drain_env two_queued =
      map (\<lambda>s. (fs_workspace s, fs_userId s, fs_captureReason s)) (queue two_queued)"
    and l0: "distinct (map fs_id (queue two_queued)) \<longrightarrow>
      queue (retryFailedSubmissions drain_env two_queued) = not_resubmitted drain_env two_queued"
    using drain_filters_by_id[OF g w, of two_queued] by blast+
  have calls: "drain_calls drain_env two_queued =
      [(small_workspace, ''user_1'', Idle), (small_workspace, ''user_1'', Idle)]"
    unfolding c0 q by (simp add: queued_def)
  have left: "queue (retryFailedSubmissions drain_env two_queued) = not_resubmitted drain_env two_queued"
    using l0 d by blast
  have "not_resubmitted drain_env two_queued = [queued 2]"
    unfolding not_resubmitted_def q drain_two_results by simp
  then show ?thesis using calls left drain_two_results(1) by simp
qed

text \<open>
  C6 as stated fails when two queued entries carry the same id: the resubmission of the
  second returns \<^verbatim>\<open>null\<close>, yet the filter by id removes it together with the
  first.
\<close>

theorem drain_equal_ids_counterexample:
  "queue twin_queued = [queued 1, (queued 2)\<lparr>fs_id := fs_id (queued 1)\<rparr>] \<and>
   drain_results drain_env twin_queued = [Some ''c-1001001-k3j9x0ab'', None] \<and>
   queue (retryFailedSubmissions drain_env twin_queued) = []"
proof -
  have q: "queue twin_queued = [queued 1, (queued 2)\<lparr>fs_id := fs_id (queued 1)\<rparr>]"
    by (simp add: twin_queued_def queue_def)
  have "queue (retryFailedSubmissions drain_env twin_queued) = []"
    by (simp add: retryFailedSubmissions_def twin_queued_def queue_def drain_env_def
      failing_env_def submitContext_def empty_storage_def shouldSubmitContext_def
      updateRateLimitCounters_def valid_date_def response_ok_def num_or_def Let_def queued_def
      small_workspace_def show_int_examples
      MIN_INTERVAL_MS_def MAX_REQUESTS_PER_MINUTE_def MAX_REQUESTS_PER_HOUR_def)
  then show ?thesis using q drain_two_results(2) by simp
qed

subsection \<open>Insights\<close>

text \<open>
  C9, as the code has it. When the live fetch fails and the cache can be read, the
  fallback returns the cached insights when they were cached less than one hour
  (3600000 ms) before, and the empty sequence when the cache is absent or one hour old
  or older; the store is left as it was.
\<close>

theorem insights_fallback:
  assumes "live env = FetchFailed" and "cache_get_ok env"
  shows "getInsights env data =
           (Inr (case cached_insights data of
                   None \<Rightarrow> []
                 | Some cached \<Rightarrow>
                     (case insights_cached_at data of
                        None \<Rightarrow> []
                      | Some cachedAt \<Rightarrow>
                          if fallback_now env - cachedAt < 3600000 then cached else [])),
            data)"
  using assms by (simp add: getInsights_def cache_fallback_def split: option.splits)

theorem insights_fallback_witness:
  "getInsights (offline_env 4599999) cached_store = (Inr [an_insight], cached_store) \<and>
   getInsights (offline_env 4600001) cached_store = (Inr [], cached_store) \<and>
   getInsights (offline_env 4600001) empty_storage = (Inr [], empty_storage)"
proof -
  have l: "live (offline_env t) = FetchFailed" and g: "cache_get_ok (offline_env t)" for t
    by (simp_all add: offline_env_def)
  show ?thesis
    using insights_fallback[OF l g, of 4599999 cached_store]
      insights_fallback[OF l g, of 4600001 cached_store]
      insights_fallback[OF l g, of 4600001 empty_storage]
    by (simp add: offline_env_def cached_store_def empty_storage_def)
qed

text \<open>
  C9 as stated fails at the boundary: insights cached exactly one hour before the failed
  fetch are not returned.
\<close>

theorem insights_hour_old_counterexample:
  "fallback_now (offline_env 4600000) - 1000000 = 3600000 \<and>
   insights_cached_at cached_store = Some 1000000 \<and>
   cached_insights cached_store = Some [an_insight] \<and>
   fst (getInsights (offline_env 4600000) cached_store) = Inr []"
  by (simp add: getInsights_def cache_fallback_def offline_env_def cached_store_def empty_storage_def)

subsection \<open>Expiration sweep\<close>















text \<open>
  The naming that \<open>captured_store\<close> asks for is the capture's own: when the extraction
  returns no file name, every screenshot key of a persisted snapshot is
  \<^verbatim>\<open>img_<timestamp>_<tabId>\<close> with the snapshot's timestamp, and the snapshot is
  stored under \<^verbatim>\<open>workspace_<timestamp>\<close>.
\<close>

lemma capture_tab_fresh:
  assumes "fresh_results env" "\<forall>t\<in>set (tabs ws). tab_screenshot t = []"
  shows "\<forall>t\<in>set (tabs (capture_tab env ws tab)). tab_screenshot t = []"
proof -
  have "tab_screenshot \<lparr>tabId = i, isActive = a, snapshot = r\<rparr> = []"
    if "executeScript env tab = ScriptResult r" for i a r
    using assms(1) that unfolding fresh_results_def tab_screenshot_def
    by (auto split: option.splits js_screenshot.splits)
  then show ?thesis using assms(2)
    by (auto simp: capture_tab_def Let_def split: option.splits script_outcome.splits)
qed

lemma foldl_capture_tab_fresh:
  "fresh_results env \<Longrightarrow> \<forall>t\<in>set (tabs ws). tab_screenshot t = [] \<Longrightarrow>
   \<forall>t\<in>set (tabs (foldl (capture_tab env) ws ts)). tab_screenshot t = []"
proof (induction ts arbitrary: ws)
  case Nil
  then show ?case by simp
next
  case (Cons a ts)
  from Cons.IH[OF Cons.prems(1) capture_tab_fresh[OF Cons.prems]] show ?case by simp
qed

lemma set_active_screenshot_names:
  "\<forall>t\<in>set xs. tab_screenshot t = [] \<Longrightarrow>
   \<forall>t\<in>set (set_active_screenshot f xs). set (tab_screenshot t) \<subseteq> {f}"
proof (induction xs)
  case Nil
  then show ?case by simp
next
  case (Cons x xs)
  have "set (tab_screenshot (x\<lparr>snapshot := (snapshot x)
             \<lparr>ps_data := map_option (\<lambda>d. d\<lparr>screenshot := Filename f\<rparr>)
                          (ps_data (snapshot x))\<rparr>\<rparr>)) \<subseteq> {f}"
    by (auto simp: tab_screenshot_def split: option.splits if_splits)
  then show ?case using Cons by auto
qed

lemma capture_window_names:
  assumes "fresh_results env"
  shows "\<forall>t\<in>set (tabs (snd (capture_window env ts w))). \<forall>f\<in>set (tab_screenshot t).
           \<exists>tab. f = ''img_'' @ show_int ts @ ''_'' @ show_int tab"
proof -
  let ?ws = "foldl (capture_tab env) \<lparr>windowId = win_id w, activeTabId = - 1, tabs = []\<rparr> (win_tabs w)"
  have fresh: "\<forall>t\<in>set (tabs ?ws). tab_screenshot t = []"
    by (rule foldl_capture_tab_fresh[OF assms]) simp
  have named: "\<forall>t\<in>set (set_active_screenshot (''img_'' @ show_int ts @ ''_'' @ show_int i) (tabs ?ws)).
      \<forall>f\<in>set (tab_screenshot t). \<exists>tab. f = ''img_'' @ show_int ts @ ''_'' @ show_int tab" for i
    using set_active_screenshot_names[OF fresh, of "''img_'' @ show_int ts @ ''_'' @ show_int i"]
    by blast
  show ?thesis
    using fresh named
    by (simp add: capture_window_def Let_def split: option.splits shot_outcome.splits)
qed

lemma capture_windows_names:
  assumes "fresh_results env"
  shows "\<forall>s\<in>set (snd (capture_windows env ts wins)). \<forall>t\<in>set (tabs s). \<forall>f\<in>set (tab_screenshot t).
           \<exists>tab. f = ''img_'' @ show_int ts @ ''_'' @ show_int tab"
proof (induction wins)
  case Nil
  then show ?case by simp
next
  case (Cons w wins)
  show ?case
    using Cons capture_window_names[OF assms, of ts w]
    by (auto simp: split_beta Let_def)
qed

lemma capture_names_screenshots:
  assumes "fresh_results env" and "captureWorkspace env ts = (effs, Inr workspace)"
  shows "timestamp workspace = ts \<and>
         StoredWorkspace (''workspace_'' @ show_int ts) workspace \<in> set effs \<and>
         (\<forall>f\<in>set (workspace_screenshots workspace).
            \<exists>tab. f = ''img_'' @ show_int (timestamp workspace) @ ''_'' @ show_int tab)"
proof -
  obtain wins where wins: "windows_getAll env = Some wins"
    using assms(2) by (cases "windows_getAll env") (auto simp: captureWorkspace_def)
  have ws: "workspace = \<lparr>timestamp = ts, windows = snd (capture_windows env ts wins)\<rparr>"
    and eff: "StoredWorkspace (''workspace_'' @ show_int ts) workspace \<in> set effs"
    using assms(2) wins
    by (auto simp: captureWorkspace_def split_beta Let_def split: if_splits)
  have "\<forall>f\<in>set (workspace_screenshots workspace).
      \<exists>tab. f = ''img_'' @ show_int ts @ ''_'' @ show_int tab"
    using capture_windows_names[OF assms(1), of ts wins]
    unfolding ws workspace_screenshots_def by auto
  then show ?thesis using ws eff by simp
qed





subsection \<open>The capturing flag\<close>

text \<open>
  C2 fails on the code. In the idle listener two \<^verbatim>\<open>await\<close>s stand between the
  test of \<^verbatim>\<open>isCapturing\<close> and the call that sets it, so a manual capture that
  arrives in between starts a capture, and the idle listener starts a second one: after
  \<open>idle_then_manual\<close> two captures are in flight.
\<close>

theorem two_captures_in_flight:
  "in_flight (foldl dispatch initial_background idle_then_manual) = 2 \<and>
   tasks (foldl dispatch initial_background idle_then_manual) = [InCapture, InCapture]"
  by (simp add: idle_then_manual_def initial_background_def dispatch_def resume_task_def in_flight_def)

text \<open>
  The manual path alone does keep the guard: the message listener tests and sets the
  flag without an \<^verbatim>\<open>await\<close> in between, so a manual capture asked for while the
  flag is set starts nothing.
\<close>

lemma manual_capture_dropped:
  "isCapturing bg \<Longrightarrow> dispatch bg (Message ManualCapture) = bg"
  by (simp add: dispatch_def)

end
